theory Spec2Isabelle
  imports Main "HOL-Library.Multiset"
begin

section \<open>The standard library the program relies on\<close>

subsection \<open>Exceptions\<close>

text \<open>
  The exceptions that the program and the library calls it makes can raise. A function
  that can raise returns \<open>error + 'a\<close>, with \<open>Inl\<close> for the exception.
\<close>

datatype error = ValueError | TypeError | OverflowError | AttributeError | OSError

subsection \<open>Calendar dates: \<open>datetime.date\<close>\<close>

text \<open>
  A \<open>datetime.date\<close> holds a year, a month and a day of the proleptic Gregorian
  calendar. The functions below are those of the standard library's \<open>datetime\<close>
  module (\<open>_is_leap\<close>, \<open>_days_before_year\<close>, \<open>_days_in_month\<close>,
  \<open>_days_before_month\<close>, \<open>_ymd2ord\<close>, \<open>_ord2ymd\<close>): day 1 is 0001-01-01.
\<close>

record date =
  year :: int
  month :: int
  day :: int

definition MINYEAR :: int where
  "MINYEAR = 1"

definition MAXYEAR :: int where
  "MAXYEAR = 9999"

definition MAXORDINAL :: int where
  "MAXORDINAL = 3652059"

definition DAYS_IN_MONTH :: "int list" where
  "DAYS_IN_MONTH = [-1, 31, 28, 31, 30, 31, 30, 31, 31, 30, 31, 30, 31]"

definition DAYS_BEFORE_MONTH :: "int list" where
  "DAYS_BEFORE_MONTH = [-1, 0, 31, 59, 90, 120, 151, 181, 212, 243, 273, 304, 334]"

definition is_leap :: "int \<Rightarrow> bool" where
  "is_leap y = (y mod 4 = 0 \<and> (y mod 100 \<noteq> 0 \<or> y mod 400 = 0))"

definition days_before_year :: "int \<Rightarrow> int" where
  "days_before_year y = (let y1 = y - 1 in y1 * 365 + y1 div 4 - y1 div 100 + y1 div 400)"

definition days_in_month :: "int \<Rightarrow> int \<Rightarrow> int" where
  "days_in_month y m = (if m = 2 \<and> is_leap y then 29 else DAYS_IN_MONTH ! nat m)"

definition days_before_month :: "int \<Rightarrow> int \<Rightarrow> int" where
  "days_before_month y m = DAYS_BEFORE_MONTH ! nat m + (if m > 2 \<and> is_leap y then 1 else 0)"

definition ymd2ord :: "int \<Rightarrow> int \<Rightarrow> int \<Rightarrow> int" where
  "ymd2ord y m d = days_before_year y + days_before_month y m + d"

definition DI400Y :: int where
  "DI400Y = 146097"

definition DI100Y :: int where
  "DI100Y = 36524"

definition DI4Y :: int where
  "DI4Y = 1461"

definition ord2ymd :: "int \<Rightarrow> int \<times> int \<times> int" where
  "ord2ymd n0 =
     (let n = n0 - 1;
          n400 = n div DI400Y; n = n mod DI400Y;
          n100 = n div DI100Y; n = n mod DI100Y;
          n4 = n div DI4Y; n = n mod DI4Y;
          n1 = n div 365; n = n mod 365;
          y = n400 * 400 + 1 + n100 * 100 + n4 * 4 + n1
      in if n1 = 4 \<or> n100 = 4 then (y - 1, 12, 31)
         else
           let leapyear = (n1 = 3 \<and> (n4 \<noteq> 24 \<or> n100 = 3));
               m = (n + 50) div 32;
               preceding = DAYS_BEFORE_MONTH ! nat m + (if m > 2 \<and> leapyear then 1 else 0)
           in if preceding > n
              then let m' = m - 1;
                       preceding' = preceding
                         - (DAYS_IN_MONTH ! nat m' + (if m' = 2 \<and> leapyear then 1 else 0))
                   in (y, m', n - preceding' + 1)
              else (y, m, n - preceding + 1))"

definition valid_date :: "int \<Rightarrow> int \<Rightarrow> int \<Rightarrow> bool" where
  "valid_date y m d =
     (MINYEAR \<le> y \<and> y \<le> MAXYEAR \<and> 1 \<le> m \<and> m \<le> 12 \<and> 1 \<le> d \<and> d \<le> days_in_month y m)"

subsection \<open>Date-times: \<open>datetime.datetime\<close>\<close>

text \<open>
  A \<open>tzinfo\<close> object is either the object \<open>timezone.utc\<close> or some other object
  \<open>Zone key off\<close>. The \<open>key\<close> stands for the identity of the object: two date-times
  carry the same object exactly when the keys are equal (as two date-times of one
  \<open>zoneinfo.ZoneInfo\<close> do). \<open>off\<close> is the offset from UTC, in seconds, that the object
  gives for the date-time that carries it; one object can give different offsets to
  different date-times, as a zone with daylight saving time does.
\<close>

datatype tz = UTC | Zone string int

fun tz_seconds :: "tz \<Rightarrow> int" where
  "tz_seconds UTC = 0"
| "tz_seconds (Zone key off) = off"

text \<open>
  \<open>datetime.datetime\<close> is a subclass of \<open>datetime.date\<close>: it adds the time of day and
  an optional \<open>tzinfo\<close>; a naive date-time has \<open>None\<close>.
\<close>

record datetime = date +
  hour :: int
  minute :: int
  second :: int
  microsecond :: int
  tzinfo :: "tz option"

definition utc :: "tz option" where
  "utc = Some UTC"

definition toordinal :: "'a date_scheme \<Rightarrow> int" where
  "toordinal d = ymd2ord (year d) (month d) (day d)"

text \<open>\<open>datetime.combine(d, time.min, tz)\<close>: the date \<open>d\<close> at 00:00:00.000000 with \<open>tz\<close>.\<close>

definition combine_min :: "date \<Rightarrow> tz option \<Rightarrow> datetime" where
  "combine_min d tz =
     \<lparr>year = year d, month = month d, day = day d,
      hour = 0, minute = 0, second = 0, microsecond = 0, tzinfo = tz\<rparr>"

text \<open>\<open>t.replace(tzinfo=tz)\<close>: the same clock fields with another \<open>tzinfo\<close>.\<close>

definition replace_tzinfo :: "datetime \<Rightarrow> tz option \<Rightarrow> datetime" where
  "replace_tzinfo t tz = t\<lparr>tzinfo := tz\<rparr>"

text \<open>
  The position of a date-time on the time line, in microseconds: the clock fields minus
  the offset from UTC (a naive date-time has no offset to subtract). \<open>wall_clock\<close> is
  the same number without the offset: the order of the clock fields alone.
\<close>

definition utcoffset :: "datetime \<Rightarrow> int" where
  "utcoffset t = (case tzinfo t of None \<Rightarrow> 0 | Some z \<Rightarrow> tz_seconds z)"

definition wall_clock :: "datetime \<Rightarrow> int" where
  "wall_clock t =
     (toordinal t * 86400 + hour t * 3600 + minute t * 60 + second t) * 1000000 + microsecond t"

definition instant :: "datetime \<Rightarrow> int" where
  "instant t =
     (toordinal t * 86400 + hour t * 3600 + minute t * 60 + second t - utcoffset t) * 1000000
       + microsecond t"

text \<open>
  \<open>a <= b\<close> and \<open>a < b\<close> on date-times. Two date-times that carry the same \<open>tzinfo\<close>
  object (or are both naive) are compared by their clock fields, whatever their
  offsets. Otherwise, comparing a naive with an aware date-time raises \<open>TypeError\<close>,
  and two aware date-times are compared as instants.
\<close>

definition same_tzinfo :: "datetime \<Rightarrow> datetime \<Rightarrow> bool" where
  "same_tzinfo a b =
     (case (tzinfo a, tzinfo b) of
        (None, None) \<Rightarrow> True
      | (Some UTC, Some UTC) \<Rightarrow> True
      | (Some (Zone i x), Some (Zone j y)) \<Rightarrow> i = j
      | _ \<Rightarrow> False)"

definition dt_le :: "datetime \<Rightarrow> datetime \<Rightarrow> error + bool" where
  "dt_le a b =
     (if same_tzinfo a b then Inr (wall_clock a \<le> wall_clock b)
      else if tzinfo a = None \<or> tzinfo b = None then Inl TypeError
      else Inr (instant a \<le> instant b))"

definition dt_lt :: "datetime \<Rightarrow> datetime \<Rightarrow> error + bool" where
  "dt_lt a b =
     (if same_tzinfo a b then Inr (wall_clock a < wall_clock b)
      else if tzinfo a = None \<or> tzinfo b = None then Inl TypeError
      else Inr (instant a < instant b))"

text \<open>
  \<open>datetime.timedelta(days=n)\<close> raises \<open>OverflowError\<close> beyond 999999999 days. The
  program builds no other time delta, so a delta is its number of days.
\<close>

definition timedelta_days :: "int \<Rightarrow> error + int" where
  "timedelta_days n = (if \<bar>n\<bar> \<le> 999999999 then Inr n else Inl OverflowError)"

text \<open>
  \<open>t - delta\<close> for a delta of whole days: the time of day and the \<open>tzinfo\<close> stay, the
  date moves by the ordinal; a result outside years 1 to 9999 raises \<open>OverflowError\<close>.
\<close>

definition dt_sub :: "datetime \<Rightarrow> int \<Rightarrow> error + datetime" where
  "dt_sub t delta =
     (let ord = toordinal t - delta
      in if 0 < ord \<and> ord \<le> MAXORDINAL
         then (case ord2ymd ord of (y, m, d) \<Rightarrow> Inr (t\<lparr>year := y, month := m, day := d\<rparr>))
         else Inl OverflowError)"

subsection \<open>Strings: \<open>str.join\<close>, \<open>str\<close>, \<open>int\<close>, \<open>strftime\<close>, \<open>strptime\<close>\<close>

text \<open>
  A string is a list of characters, and a character is a code point below 256: the
  ASCII characters and those of Latin-1 above them (\<open>CHR 0xA0\<close> is the no-break space).
  Text with other characters is outside this model.

  \<open>sep.join(xs)\<close>:
\<close>

fun join :: "string \<Rightarrow> string list \<Rightarrow> string" where
  "join sep [] = []"
| "join sep [x] = x"
| "join sep (x # y # ys) = x @ sep @ join sep (y # ys)"

definition digit_chr :: "int \<Rightarrow> char" where
  "digit_chr n = ''0123456789'' ! nat (n mod 10)"

definition zero_pad2 :: "int \<Rightarrow> string" where
  "zero_pad2 n = [digit_chr (n div 10), digit_chr n]"

text \<open>A number in decimal, with as many digits as it needs.\<close>

function decimal :: "int \<Rightarrow> string" where
  "decimal n = (if n < 10 then [digit_chr n] else decimal (n div 10) @ [digit_chr n])"
  by pat_completeness auto
termination
  by (relation "measure nat") auto

declare decimal.simps [simp del]

text \<open>
  \<open>t.strftime('%d.%m.%Y')\<close>, as CPython gives it with the C library of Linux: the day
  and the month on two digits each, and the year in decimal without padding, so on
  fewer than four digits for a year before 1000. The fields are the date-time's own
  clock fields (no conversion to UTC).
\<close>

definition strftime_d_m_Y :: "datetime \<Rightarrow> string" where
  "strftime_d_m_Y t = zero_pad2 (day t) @ ''.'' @ zero_pad2 (month t) @ ''.'' @ decimal (year t)"

definition digit_val :: "char \<Rightarrow> int option" where
  "digit_val c =
     map_of [(CHR ''0'', 0), (CHR ''1'', 1), (CHR ''2'', 2), (CHR ''3'', 3), (CHR ''4'', 4),
             (CHR ''5'', 5), (CHR ''6'', 6), (CHR ''7'', 7), (CHR ''8'', 8), (CHR ''9'', 9)] c"

text \<open>
  The whitespace that \<open>int\<close> skips at both ends of a string: tab, line feed, vertical
  tab, form feed, carriage return and space, and of the characters above ASCII the next
  line control \<open>0x85\<close> and the no-break space \<open>0xA0\<close>. (The separators \<open>0x1C\<close> to
  \<open>0x1F\<close> are not skipped.)
\<close>

definition is_space :: "char \<Rightarrow> bool" where
  "is_space c =
     (c \<in> set [CHR 0x09, CHR 0x0A, CHR 0x0B, CHR 0x0C, CHR 0x0D, CHR '' '',
                CHR 0x85, CHR 0xA0])"

definition strip :: "string \<Rightarrow> string" where
  "strip s = rev (dropWhile is_space (rev (dropWhile is_space s)))"

text \<open>
  \<open>int(s)\<close> on a string: surrounding whitespace is dropped, then an optional sign and
  decimal digits, where single underscores may stand between digits. Anything else
  raises \<open>ValueError\<close>, and so does a string of more digits than the interpreter
  converts (4300 unless it is configured otherwise). Below 256 the only decimal digits
  are \<open>0\<close> to \<open>9\<close>.
\<close>

fun int_digits :: "string \<Rightarrow> int \<Rightarrow> int option" where
  "int_digits [] acc = Some acc"
| "int_digits (c # cs) acc =
     (if c = CHR ''_''
      then (case cs of
              [] \<Rightarrow> None
            | d # ds \<Rightarrow> (case digit_val d of
                           None \<Rightarrow> None
                         | Some v \<Rightarrow> int_digits ds (acc * 10 + v)))
      else (case digit_val c of
              None \<Rightarrow> None
            | Some v \<Rightarrow> int_digits cs (acc * 10 + v)))"

definition int_unsigned :: "string \<Rightarrow> int option" where
  "int_unsigned s =
     (case s of
        [] \<Rightarrow> None
      | c # cs \<Rightarrow> (case digit_val c of None \<Rightarrow> None | Some v \<Rightarrow> int_digits cs v))"

definition MAX_STR_DIGITS :: nat where
  "MAX_STR_DIGITS = 4300"

definition py_int :: "string \<Rightarrow> error + int" where
  "py_int s =
     (case strip s of
        [] \<Rightarrow> Inl ValueError
      | c # cs \<Rightarrow>
          (case (if c = CHR ''-'' then map_option uminus (int_unsigned cs)
                 else if c = CHR ''+'' then int_unsigned cs
                 else int_unsigned (c # cs)) of
             None \<Rightarrow> Inl ValueError
           | Some n \<Rightarrow>
               (if length (filter (\<lambda>d. digit_val d \<noteq> None) s) > MAX_STR_DIGITS
                then Inl ValueError else Inr n)))"

text \<open>
  \<open>datetime.strptime(s, "%d_%m_%Y")\<close>. The library matches the whole string against
  \<open>(3[0-1]|[1-2]\d|0[1-9]|[1-9]| [1-9])_(1[0-2]|0[1-9]|[1-9])_(\d\d\d\d)\<close> and then
  builds the date; a string that does not match, or a day that the month does not
  have, or year 0, raises \<open>ValueError\<close>. No alternative contains an underscore, so
  the three fields are the pieces between the underscores.
\<close>

definition match_d :: "string \<Rightarrow> int option" where
  "match_d tok =
     (case tok of
        [a, b] \<Rightarrow>
          (if a = CHR ''3'' \<and> b \<in> set ''01'' then Some (30 + the (digit_val b))
           else if a \<in> set ''12'' \<and> digit_val b \<noteq> None
             then Some (the (digit_val a) * 10 + the (digit_val b))
           else if a \<in> set ''0 '' \<and> b \<in> set ''123456789'' then digit_val b
           else None)
      | [a] \<Rightarrow> (if a \<in> set ''123456789'' then digit_val a else None)
      | _ \<Rightarrow> None)"

definition match_m :: "string \<Rightarrow> int option" where
  "match_m tok =
     (case tok of
        [a, b] \<Rightarrow>
          (if a = CHR ''1'' \<and> b \<in> set ''012'' then Some (10 + the (digit_val b))
           else if a = CHR ''0'' \<and> b \<in> set ''123456789'' then digit_val b
           else None)
      | [a] \<Rightarrow> (if a \<in> set ''123456789'' then digit_val a else None)
      | _ \<Rightarrow> None)"

definition match_Y :: "string \<Rightarrow> int option" where
  "match_Y tok =
     (case map digit_val tok of
        [Some a, Some b, Some c, Some d] \<Rightarrow> Some (a * 1000 + b * 100 + c * 10 + d)
      | _ \<Rightarrow> None)"

definition not_underscore :: "char \<Rightarrow> bool" where
  "not_underscore c = (c \<noteq> CHR ''_'')"

definition strptime_d_m_Y :: "string \<Rightarrow> error + datetime" where
  "strptime_d_m_Y s =
     (case dropWhile not_underscore s of
        [] \<Rightarrow> Inl ValueError
      | _ # r1 \<Rightarrow>
          (case dropWhile not_underscore r1 of
             [] \<Rightarrow> Inl ValueError
           | _ # r2 \<Rightarrow>
               (case (match_d (takeWhile not_underscore s),
                      match_m (takeWhile not_underscore r1), match_Y r2) of
                  (Some d, Some m, Some y) \<Rightarrow>
                    (if valid_date y m d
                     then Inr \<lparr>year = y, month = m, day = d, hour = 0, minute = 0,
                               second = 0, microsecond = 0, tzinfo = None\<rparr>
                     else Inl ValueError)
                | _ \<Rightarrow> Inl ValueError)))"

subsection \<open>Sorting: \<open>sorted\<close>\<close>

text \<open>
  \<open>sorted(xs, key=f)\<close> copies \<open>xs\<close> into a list and sorts it with \<open>list.sort\<close>, which
  compares the keys of two elements with \<open><\<close> and with nothing else; \<open>lt a b\<close> below
  stands for \<open>f(a) < f(b)\<close>. CPython sorts a list of fewer than 64 elements in two
  steps. \<open>count_run\<close> takes the longest run at the head of the list that is ascending
  (no element less than the one before it) or strictly descending (every element less
  than the one before it), and a descending run is reversed. \<open>binarysort\<close> then inserts
  the remaining elements one by one, each at the place that a binary search for it
  finds in the part sorted so far. A list of 64 elements or more is cut into runs that
  are sorted in this way and then merged; the merged list is the same one whenever \<open><\<close>
  orders the keys at hand totally, and the merge is not written out here.
\<close>

fun asc_run :: "('a \<Rightarrow> 'a \<Rightarrow> bool) \<Rightarrow> 'a \<Rightarrow> 'a list \<Rightarrow> 'a list \<times> 'a list" where
  "asc_run lt prev [] = ([], [])"
| "asc_run lt prev (x # xs) =
     (if lt x prev then ([], x # xs)
      else (case asc_run lt x xs of (run, rest) \<Rightarrow> (x # run, rest)))"

fun desc_run :: "('a \<Rightarrow> 'a \<Rightarrow> bool) \<Rightarrow> 'a \<Rightarrow> 'a list \<Rightarrow> 'a list \<times> 'a list" where
  "desc_run lt prev [] = ([], [])"
| "desc_run lt prev (x # xs) =
     (if lt x prev then (case desc_run lt x xs of (run, rest) \<Rightarrow> (x # run, rest))
      else ([], x # xs))"

text \<open>The first run, made ascending, and the elements after it.\<close>

definition count_run :: "('a \<Rightarrow> 'a \<Rightarrow> bool) \<Rightarrow> 'a list \<Rightarrow> 'a list \<times> 'a list" where
  "count_run lt xs =
     (case xs of
        [] \<Rightarrow> ([], [])
      | [a] \<Rightarrow> ([a], [])
      | a # b # ys \<Rightarrow>
          (if lt b a
           then (case desc_run lt b ys of (run, rest) \<Rightarrow> (rev (a # b # run), rest))
           else (case asc_run lt b ys of (run, rest) \<Rightarrow> (a # b # run, rest))))"

text \<open>
  The binary search of \<open>binarysort\<close> for the place of \<open>pivot\<close> between the positions
  \<open>l\<close> and \<open>r\<close> of the sorted part \<open>xs\<close>.
\<close>

function bisect :: "('a \<Rightarrow> 'a \<Rightarrow> bool) \<Rightarrow> 'a \<Rightarrow> 'a list \<Rightarrow> nat \<Rightarrow> nat \<Rightarrow> nat" where
  "bisect lt pivot xs l r =
     (if l < r
      then (if lt pivot (xs ! (l + (r - l) div 2))
            then bisect lt pivot xs l (l + (r - l) div 2)
            else bisect lt pivot xs (Suc (l + (r - l) div 2)) r)
      else l)"
  by pat_completeness auto
termination
  by (relation "measure (\<lambda>(lt, pivot, xs, l, r). r - l)") auto

declare bisect.simps [simp del]

definition insert_at :: "nat \<Rightarrow> 'a \<Rightarrow> 'a list \<Rightarrow> 'a list" where
  "insert_at l x xs = take l xs @ x # drop l xs"

fun binarysort :: "('a \<Rightarrow> 'a \<Rightarrow> bool) \<Rightarrow> 'a list \<Rightarrow> 'a list \<Rightarrow> 'a list" where
  "binarysort lt acc [] = acc"
| "binarysort lt acc (pivot # rest) =
     binarysort lt (insert_at (bisect lt pivot acc 0 (length acc)) pivot acc) rest"

definition listsort :: "('a \<Rightarrow> 'a \<Rightarrow> bool) \<Rightarrow> 'a list \<Rightarrow> 'a list" where
  "listsort lt xs =
     (if length xs < 2 then xs
      else (case count_run lt xs of (run, rest) \<Rightarrow> binarysort lt run rest))"


subsection \<open>Standard output and the wall clock\<close>

text \<open>
  Standard output is the list of the \<open>print\<close> calls made so far, each with the text it
  was given; \<open>print\<close> ends the text of every call with a newline.

  The wall clock is a function from the number of readings taken so far to the UTC
  clock fields of the next reading. \<open>datetime.now(timezone.utc)\<close> takes one reading
  and returns it with \<open>timezone.utc\<close> attached; code that reads the clock returns the
  new number of readings.
\<close>

definition py_print :: "string \<Rightarrow> string list \<Rightarrow> string list" where
  "py_print s out = out @ [s]"

definition now_utc :: "(nat \<Rightarrow> datetime) \<Rightarrow> nat \<Rightarrow> datetime \<times> nat" where
  "now_utc clk k = (replace_tzinfo (clk k) utc, Suc k)"

subsection \<open>What the calendar parser delivers\<close>

text \<open>
  \<open>Calendar.from_ical(...).walk()\<close> yields the components of the file. Of a component
  the program reads the name and three properties:
  \<^item> \<open>component.get("dtstart")\<close>, whose \<open>dt\<close> is a \<open>date\<close> or a \<open>datetime\<close>;
    \<open>None\<close> when the component has no start, and then \<open>.dt\<close> raises \<open>AttributeError\<close>;
  \<^item> \<open>component.get("summary")\<close>, a text or \<open>None\<close>;
  \<^item> \<open>component.get("attendee")\<close>: \<open>None\<close>, one address, or a list of addresses. An
    address is a string (a subclass of \<open>str\<close>, so an empty address is false in a
    condition) that may have a \<open>params\<close> attribute, a dictionary from upper-case
    parameter names to values; a value is a string or a list of strings.
\<close>

datatype dt_value = DateValue date | DateTimeValue datetime

datatype param_value = PStr string | PList "string list"

record address =
  uri :: string
  params :: "(string \<rightharpoonup> param_value) option"

datatype attendee_prop = NoAttendee | OneAttendee address | Attendees "address list"

record component =
  name :: string
  dtstart :: "dt_value option"
  summary_prop :: "string option"
  attendee :: attendee_prop

section \<open>The program\<close>

subsection \<open>\<open>CalendarEvent\<close>\<close>

record CalendarEvent =
  summary :: "string option"
  start :: datetime
  attendee_status :: string

subsection \<open>\<open>CalendarReader\<close>\<close>

record CalendarReader =
  file_path :: string
  days_before :: "int option"
  start_date :: "datetime option"
  end_date :: "datetime option"

text \<open>
  \<open>CalendarReader.__init__\<close>: a date string that is given and not empty is parsed and
  gets UTC attached; \<open>None\<close> and the empty string give \<open>None\<close>.
\<close>

definition parse_bound :: "string option \<Rightarrow> error + datetime option" where
  "parse_bound arg =
     (case arg of
        None \<Rightarrow> Inr None
      | Some s \<Rightarrow>
          (if s \<noteq> []
           then (case strptime_d_m_Y s of
                   Inl e \<Rightarrow> Inl e
                 | Inr t \<Rightarrow> Inr (Some (replace_tzinfo t utc)))
           else Inr None))"

definition CalendarReader_init ::
  "string \<Rightarrow> int option \<Rightarrow> string option \<Rightarrow> string option \<Rightarrow> error + CalendarReader" where
  "CalendarReader_init path days sd ed =
     (case parse_bound sd of
        Inl e \<Rightarrow> Inl e
      | Inr s \<Rightarrow>
          (case parse_bound ed of
             Inl e \<Rightarrow> Inl e
           | Inr e \<Rightarrow>
               Inr \<lparr>file_path = path, days_before = days, start_date = s, end_date = e\<rparr>))"

text \<open>
  \<open>a <= b <= c\<close>: \<open>b <= c\<close> is evaluated only when \<open>a <= b\<close> holds.
\<close>

definition chain_le :: "datetime \<Rightarrow> datetime \<Rightarrow> datetime \<Rightarrow> error + bool" where
  "chain_le a b c =
     (case dt_le a b of
        Inl e \<Rightarrow> Inl e
      | Inr ok \<Rightarrow> (if ok then dt_le b c else Inr False))"

text \<open>The truth value of \<open>self._days_before\<close>: \<open>None\<close> and \<open>0\<close> are false.\<close>

definition truthy_days :: "int option \<Rightarrow> bool" where
  "truthy_days d = (case d of None \<Rightarrow> False | Some n \<Rightarrow> n \<noteq> 0)"

text \<open>
  \<open>CalendarReader._is_event_in_range\<close>, with the clock \<open>clk\<close> and the number \<open>k\<close> of
  readings taken before the call; it returns the verdict and the number of readings
  taken after it.
\<close>

definition is_event_in_range ::
  "CalendarReader \<Rightarrow> (nat \<Rightarrow> datetime) \<Rightarrow> nat \<Rightarrow> datetime \<Rightarrow> error + (bool \<times> nat)" where
  "is_event_in_range r clk k event_start =
     (if start_date r \<noteq> None \<and> end_date r \<noteq> None
      then (case chain_le (the (start_date r)) event_start (the (end_date r)) of
              Inl e \<Rightarrow> Inl e
            | Inr b \<Rightarrow> Inr (b, k))
      else if truthy_days (days_before r)
      then (case now_utc clk k of
              (now, k') \<Rightarrow>
                (case timedelta_days (the (days_before r)) of
                   Inl e \<Rightarrow> Inl e
                 | Inr delta \<Rightarrow>
                     (case dt_sub now delta of
                        Inl e \<Rightarrow> Inl e
                      | Inr days_ago \<Rightarrow>
                          (case chain_le days_ago event_start now of
                             Inl e \<Rightarrow> Inl e
                           | Inr b \<Rightarrow> Inr (b, k')))))
      else Inr (True, k))"

text \<open>
  The condition under which \<open>_is_event_in_range\<close> reaches the branch that reads the
  clock: the first test fails and \<open>self._days_before\<close> is true.
\<close>

definition reads_clock :: "CalendarReader \<Rightarrow> bool" where
  "reads_clock r = ((start_date r = None \<or> end_date r = None) \<and> truthy_days (days_before r))"

text \<open>
  \<open>CalendarReader._get_attendee_status\<close>. The loop over the attendees returns at the
  first one that has \<open>params\<close> with \<open>PARTSTAT\<close> equal to \<open>"ACCEPTED"\<close>.
\<close>

definition accepted :: "address \<Rightarrow> bool" where
  "accepted a =
     (case params a of
        None \<Rightarrow> False
      | Some ps \<Rightarrow> ps ''PARTSTAT'' = Some (PStr ''ACCEPTED''))"

fun attendee_loop :: "address list \<Rightarrow> string" where
  "attendee_loop [] = ''DECLINED''"
| "attendee_loop (a # as) = (if accepted a then ''ACCEPTED'' else attendee_loop as)"

definition get_attendee_status :: "component \<Rightarrow> string" where
  "get_attendee_status c =
     (case attendee c of
        NoAttendee \<Rightarrow> ''DECLINED''
      | OneAttendee a \<Rightarrow> (if uri a \<noteq> [] then attendee_loop [a] else ''DECLINED'')
      | Attendees as \<Rightarrow> (if as \<noteq> [] then attendee_loop as else ''DECLINED''))"

text \<open>
  The normalisation of the start in \<open>read_events\<close> (the \<open>if\<close>/\<open>elif\<close> on the type of
  \<open>start\<close>).
\<close>

definition normalize_start :: "dt_value \<Rightarrow> datetime" where
  "normalize_start raw =
     (case raw of
        DateValue d \<Rightarrow> combine_min d utc
      | DateTimeValue t \<Rightarrow> (if tzinfo t = None then replace_tzinfo t utc else t))"

text \<open>
  \<open>sorted(events, key=lambda event: event.start)\<close>: the keys are the starts, compared
  with \<open><\<close> on date-times. Every start that reaches the sort is aware (lemma
  \<open>read_loop_aware\<close> below), so no comparison raises.
\<close>

definition start_lt :: "CalendarEvent \<Rightarrow> CalendarEvent \<Rightarrow> bool" where
  "start_lt a b = (dt_lt (start a) (start b) = Inr True)"

definition sorted_by_start :: "CalendarEvent list \<Rightarrow> CalendarEvent list" where
  "sorted_by_start events = listsort start_lt events"


text \<open>
  The loop of \<open>read_events\<close> over the components, with the list \<open>events\<close> built so far
  and the number \<open>k\<close> of clock readings taken so far.
\<close>

fun read_loop ::
  "CalendarReader \<Rightarrow> (nat \<Rightarrow> datetime) \<Rightarrow> component list \<Rightarrow> nat \<Rightarrow> CalendarEvent list
     \<Rightarrow> error + (CalendarEvent list \<times> nat)" where
  "read_loop r clk [] k events = Inr (events, k)"
| "read_loop r clk (c # cs) k events =
     (if name c = ''VEVENT''
      then (case dtstart c of
              None \<Rightarrow> Inl AttributeError
            | Some raw \<Rightarrow>
                (case is_event_in_range r clk k (normalize_start raw) of
                   Inl e \<Rightarrow> Inl e
                 | Inr (in_range, k') \<Rightarrow>
                     (if in_range
                      then (if get_attendee_status c = ''ACCEPTED''
                            then read_loop r clk cs k'
                                   (events @ [\<lparr>summary = summary_prop c,
                                               start = normalize_start raw,
                                               attendee_status = get_attendee_status c\<rparr>])
                            else read_loop r clk cs k' events)
                      else read_loop r clk cs k' events)))
      else read_loop r clk cs k events)"

text \<open>
  \<open>CalendarReader.read_events\<close>. \<open>fs\<close> stands for opening, reading and parsing a file:
  it gives the components of the file at a path, or the exception raised on the way
  (\<open>OSError\<close> for a file that cannot be opened, \<open>ValueError\<close> for one that is not a
  calendar).
\<close>

definition read_events ::
  "CalendarReader \<Rightarrow> (string \<Rightarrow> error + component list) \<Rightarrow> (nat \<Rightarrow> datetime) \<Rightarrow> nat
     \<Rightarrow> error + (CalendarEvent list \<times> nat)" where
  "read_events r fs clk k =
     (case fs (file_path r) of
        Inl e \<Rightarrow> Inl e
      | Inr comps \<Rightarrow>
          (case read_loop r clk comps k [] of
             Inl e \<Rightarrow> Inl e
           | Inr (events, k') \<Rightarrow> Inr (sorted_by_start events, k')))"

subsection \<open>\<open>CalendarPrinter\<close>\<close>

definition str_opt :: "string option \<Rightarrow> string" where
  "str_opt s = (case s of None \<Rightarrow> ''None'' | Some t \<Rightarrow> t)"

definition format_event :: "CalendarEvent \<Rightarrow> string" where
  "format_event event =
     ''project meeting: '' @ str_opt (summary event) @ ''_'' @ strftime_d_m_Y (start event) @ '';''"

definition separator :: string where
  "separator = [CHR '' '', CHR 0x0A]"

definition print_events :: "CalendarEvent list \<Rightarrow> string list \<Rightarrow> string list" where
  "print_events events out = py_print (join separator (map format_event events)) out"

subsection \<open>\<open>main\<close> and the script\<close>

definition main ::
  "string \<Rightarrow> int option \<Rightarrow> string option \<Rightarrow> string option
     \<Rightarrow> (string \<Rightarrow> error + component list) \<Rightarrow> (nat \<Rightarrow> datetime) \<Rightarrow> string list
     \<Rightarrow> error + string list" where
  "main path days sd ed fs clk out =
     (case CalendarReader_init path days sd ed of
        Inl e \<Rightarrow> Inl e
      | Inr reader \<Rightarrow>
          (case read_events reader fs clk 0 of
             Inl e \<Rightarrow> Inl e
           | Inr (events, k) \<Rightarrow> Inr (print_events events out)))"

text \<open>
  How a run of the script ends: it runs to its end, it calls \<open>sys.exit\<close> with a status,
  or an exception that nothing catches ends it.
\<close>

datatype outcome = Finished | Exit int | Uncaught error

definition usage1 :: string where
  "usage1 = ''Usage: python script.py <file_path> <days_before>''"

definition usage2 :: string where
  "usage2 = ''   or: python script.py <file_path> <start_date> <end_date>''"

definition not_an_integer :: string where
  "not_an_integer = ''The number of days must be an integer.''"

text \<open>
  The script body under \<open>if __name__ == "__main__"\<close>, on the argument vector
  \<open>sys.argv\<close> (the script's own name first). The \<open>try\<close> encloses the call of \<open>main\<close>,
  so a \<open>ValueError\<close> raised inside \<open>main\<close> reaches the same handler as one of \<open>int\<close>.
\<close>

definition script ::
  "string list \<Rightarrow> (string \<Rightarrow> error + component list) \<Rightarrow> (nat \<Rightarrow> datetime)
     \<Rightarrow> string list \<times> outcome" where
  "script argv fs clk =
     (if length argv \<noteq> 3 \<and> length argv \<noteq> 4
      then (py_print usage2 (py_print usage1 []), Exit 1)
      else if length argv = 3
      then (case py_int (argv ! 2) of
              Inl e \<Rightarrow> (py_print not_an_integer [], Exit 1)
            | Inr n \<Rightarrow>
                (case main (argv ! 1) (Some n) None None fs clk [] of
                   Inl e \<Rightarrow> (if e = ValueError then (py_print not_an_integer [], Exit 1)
                             else ([], Uncaught e))
                 | Inr out \<Rightarrow> (out, Finished)))
      else (case main (argv ! 1) None (Some (argv ! 2)) (Some (argv ! 3)) fs clk [] of
              Inl e \<Rightarrow> ([], Uncaught e)
            | Inr out \<Rightarrow> (out, Finished)))"

section \<open>Example runs\<close>

text \<open>
  Concrete inputs on which the theorems below are instantiated: a clock that advances by
  one second at every reading from 2024-03-01 12:00:00 UTC, date-times in UTC and in
  the zone of Warsaw (one hour east of UTC in winter, two in summer), readers for the
  three ways of choosing a range, events with one attendee, and a file system holding
  one calendar file.
\<close>

definition ex_clock :: "nat \<Rightarrow> datetime" where
  "ex_clock k = \<lparr>year = 2024, month = 3, day = 1, hour = 12, minute = 0, second = int k,
                 microsecond = 0, tzinfo = None\<rparr>"

definition ex_noon_tick :: datetime where
  "ex_noon_tick = \<lparr>year = 2024, month = 3, day = 1, hour = 12, minute = 0, second = 1,
                   microsecond = 0, tzinfo = Some UTC\<rparr>"

definition ex_date :: "int \<Rightarrow> int \<Rightarrow> int \<Rightarrow> date" where
  "ex_date y m d = \<lparr>year = y, month = m, day = d\<rparr>"

definition at_midnight_utc :: "int \<Rightarrow> int \<Rightarrow> int \<Rightarrow> datetime" where
  "at_midnight_utc y m d = \<lparr>year = y, month = m, day = d, hour = 0, minute = 0, second = 0,
                           microsecond = 0, tzinfo = Some UTC\<rparr>"

definition at_time :: "int \<Rightarrow> int \<Rightarrow> int \<Rightarrow> int \<Rightarrow> int \<Rightarrow> tz option \<Rightarrow> datetime" where
  "at_time y m d h mi z = \<lparr>year = y, month = m, day = d, hour = h, minute = mi, second = 0,
                            microsecond = 0, tzinfo = z\<rparr>"

definition warsaw :: "int \<Rightarrow> tz option" where
  "warsaw off = Some (Zone ''Europe/Warsaw'' off)"

definition ex_reader :: "int option \<Rightarrow> datetime option \<Rightarrow> datetime option \<Rightarrow> CalendarReader" where
  "ex_reader days sd ed =
     \<lparr>file_path = ''cal.ics'', days_before = days, start_date = sd, end_date = ed\<rparr>"

definition ex_attendee :: "string \<Rightarrow> string \<Rightarrow> address" where
  "ex_attendee u partstat = \<lparr>uri = u, params = Some [''PARTSTAT'' \<mapsto> PStr partstat]\<rparr>"

definition ex_accepted :: attendee_prop where
  "ex_accepted = OneAttendee (ex_attendee ''mailto:a@example.org'' ''ACCEPTED'')"

definition ex_declined :: attendee_prop where
  "ex_declined = OneAttendee (ex_attendee ''mailto:a@example.org'' ''DECLINED'')"

definition ex_vevent :: "dt_value \<Rightarrow> string \<Rightarrow> attendee_prop \<Rightarrow> component" where
  "ex_vevent dt s att =
     \<lparr>name = ''VEVENT'', dtstart = Some dt, summary_prop = Some s, attendee = att\<rparr>"

definition ex_event :: "string \<Rightarrow> datetime \<Rightarrow> CalendarEvent" where
  "ex_event s t = \<lparr>summary = Some s, start = t, attendee_status = ''ACCEPTED''\<rparr>"

definition ex_fs :: "component list \<Rightarrow> string \<Rightarrow> error + component list" where
  "ex_fs comps path = (if path = ''cal.ics'' then Inr comps else Inl OSError)"

lemmas calendar_defs = toordinal_def ymd2ord_def days_before_year_def days_before_month_def
  days_in_month_def DAYS_BEFORE_MONTH_def DAYS_IN_MONTH_def is_leap_def ord2ymd_def DI400Y_def
  DI100Y_def DI4Y_def MINYEAR_def MAXYEAR_def MAXORDINAL_def valid_date_def Let_def

lemmas datetime_defs = replace_tzinfo_def combine_min_def utc_def instant_def utcoffset_def
  wall_clock_def same_tzinfo_def dt_le_def dt_lt_def chain_le_def timedelta_days_def dt_sub_def
  now_utc_def


lemmas example_defs = ex_clock_def at_midnight_utc_def at_time_def warsaw_def ex_reader_def
  ex_attendee_def
  ex_vevent_def ex_noon_tick_def ex_date_def ex_accepted_def ex_declined_def ex_event_def
  ex_fs_def

section \<open>Properties of the calendar arithmetic\<close>

text \<open>
  The date of an ordinal has that ordinal: \<open>_ymd2ord\<close> undoes \<open>_ord2ymd\<close>. First the
  month and the day within a year (\<open>f\<close> is the number of days before the date in its
  year, \<open>L\<close> says whether the year is a leap year), then the year, then both.
\<close>

lemma month_of_day:
  fixes f :: int and L :: bool
  assumes "0 \<le> f" "f \<le> 364"
  defines "m \<equiv> (f + 50) div 32"
  defines "p \<equiv> DAYS_BEFORE_MONTH ! nat m + (if m > 2 \<and> L then 1 else 0)"
  defines "q \<equiv> p - (DAYS_IN_MONTH ! nat (m - 1) + (if m - 1 = 2 \<and> L then 1 else 0))"
  defines "res \<equiv> (if p > f then (m - 1, f - q + 1) else (m, f - p + 1))"
  shows "1 \<le> fst res \<and> fst res \<le> 12 \<and> 1 \<le> snd res
         \<and> DAYS_BEFORE_MONTH ! nat (fst res) + (if fst res > 2 \<and> L then 1 else 0) + snd res = f + 1"
proof -
  have "1 \<le> m" "m \<le> 12" using assms(1,2) unfolding m_def by linarith+
  then have "m = 1 \<or> m = 2 \<or> m = 3 \<or> m = 4 \<or> m = 5 \<or> m = 6 \<or> m = 7
    \<or> m = 8 \<or> m = 9 \<or> m = 10 \<or> m = 11 \<or> m = 12"
    by presburger
  then consider "m = 1" | "m = 2" | "m = 3" | "m = 4" | "m = 5" | "m = 6" | "m = 7"
    | "m = 8" | "m = 9" | "m = 10" | "m = 11" | "m = 12"
    by blast
  then show ?thesis
  proof cases
    case 1
    then have "f \<le> 13" unfolding m_def by linarith
    with 1 assms(1) show ?thesis
      by (simp add: res_def p_def q_def DAYS_BEFORE_MONTH_def DAYS_IN_MONTH_def)
  next
    case 2
    then have "14 \<le> f" "f \<le> 45" unfolding m_def by linarith+
    with 2 show ?thesis
      by (simp add: res_def p_def q_def DAYS_BEFORE_MONTH_def DAYS_IN_MONTH_def)
  next
    case 3
    then have "46 \<le> f" "f \<le> 77" unfolding m_def by linarith+
    with 3 show ?thesis
      by (simp add: res_def p_def q_def DAYS_BEFORE_MONTH_def DAYS_IN_MONTH_def)
  next
    case 4
    then have "78 \<le> f" "f \<le> 109" unfolding m_def by linarith+
    with 4 show ?thesis
      by (simp add: res_def p_def q_def DAYS_BEFORE_MONTH_def DAYS_IN_MONTH_def)
  next
    case 5
    then have "110 \<le> f" "f \<le> 141" unfolding m_def by linarith+
    with 5 show ?thesis
      by (simp add: res_def p_def q_def DAYS_BEFORE_MONTH_def DAYS_IN_MONTH_def)
  next
    case 6
    then have "142 \<le> f" "f \<le> 173" unfolding m_def by linarith+
    with 6 show ?thesis
      by (simp add: res_def p_def q_def DAYS_BEFORE_MONTH_def DAYS_IN_MONTH_def)
  next
    case 7
    then have "174 \<le> f" "f \<le> 205" unfolding m_def by linarith+
    with 7 show ?thesis
      by (simp add: res_def p_def q_def DAYS_BEFORE_MONTH_def DAYS_IN_MONTH_def)
  next
    case 8
    then have "206 \<le> f" "f \<le> 237" unfolding m_def by linarith+
    with 8 show ?thesis
      by (simp add: res_def p_def q_def DAYS_BEFORE_MONTH_def DAYS_IN_MONTH_def)
  next
    case 9
    then have "238 \<le> f" "f \<le> 269" unfolding m_def by linarith+
    with 9 show ?thesis
      by (simp add: res_def p_def q_def DAYS_BEFORE_MONTH_def DAYS_IN_MONTH_def)
  next
    case 10
    then have "270 \<le> f" "f \<le> 301" unfolding m_def by linarith+
    with 10 show ?thesis
      by (simp add: res_def p_def q_def DAYS_BEFORE_MONTH_def DAYS_IN_MONTH_def)
  next
    case 11
    then have "302 \<le> f" "f \<le> 333" unfolding m_def by linarith+
    with 11 show ?thesis
      by (simp add: res_def p_def q_def DAYS_BEFORE_MONTH_def DAYS_IN_MONTH_def)
  next
    case 12
    then have "334 \<le> f" unfolding m_def by linarith
    with 12 assms(2) show ?thesis
      by (simp add: res_def p_def q_def DAYS_BEFORE_MONTH_def DAYS_IN_MONTH_def)
  qed
qed


lemma div_mod_block:
  fixes q r k :: int
  assumes "0 \<le> r" "r < k"
  shows "(k * q + r) div k = q" "(k * q + r) mod k = r"
  using assms by (simp_all add: div_pos_pos_trivial)

lemma year_arith:
  fixes a b c e :: int
  assumes "0 \<le> b" "b \<le> 3" "0 \<le> c" "c \<le> 24" "0 \<le> e" "e \<le> 3"
  defines "y \<equiv> a * 400 + 1 + b * 100 + c * 4 + e"
  shows "days_before_year y = 146097 * a + 36524 * b + 1461 * c + 365 * e"
    and "is_leap y = (e = 3 \<and> (c \<noteq> 24 \<or> b = 3))"
proof -
  have d4: "(y - 1) div 4 = 100 * a + 25 * b + c"
    using div_mod_block(1) [of e 4 "100 * a + 25 * b + c"] assms(5,6)
    by (simp add: y_def algebra_simps)
  have d100: "(y - 1) div 100 = 4 * a + b"
    using div_mod_block(1) [of "4 * c + e" 100 "4 * a + b"] assms(3-6)
    by (simp add: y_def algebra_simps)
  have d400: "(y - 1) div 400 = a"
    using div_mod_block(1) [of "100 * b + 4 * c + e" 400 a] assms(1-6)
    by (simp add: y_def algebra_simps)
  show "days_before_year y = 146097 * a + 36524 * b + 1461 * c + 365 * e"
    unfolding days_before_year_def Let_def d4 d100 d400 by (simp add: y_def)
  show "is_leap y = (e = 3 \<and> (c \<noteq> 24 \<or> b = 3))"
  proof (cases "e = 3")
    case False
    then have "0 \<le> e + 1" "e + 1 < 4" using assms(5,6) by simp_all
    then have "y mod 4 = e + 1"
      using div_mod_block(2) [of "e + 1" 4 "100 * a + 25 * b + c"]
      by (simp add: y_def algebra_simps)
    with False assms(5) show ?thesis by (simp add: is_leap_def)
  next
    case e3: True
    have m4: "y mod 4 = 0"
      using div_mod_block(2) [of 0 4 "100 * a + 25 * b + c + 1"] e3
      by (simp add: y_def algebra_simps)
    show ?thesis
    proof (cases "c = 24")
      case False
      then have "0 \<le> 4 * c + 4" "4 * c + 4 < 100" using assms(3,4) by simp_all
      then have "y mod 100 = 4 * c + 4"
        using div_mod_block(2) [of "4 * c + 4" 100 "4 * a + b"] e3
        by (simp add: y_def algebra_simps)
      with False e3 m4 assms(3) show ?thesis by (simp add: is_leap_def)
    next
      case c24: True
      have m100: "y mod 100 = 0"
        using div_mod_block(2) [of 0 100 "4 * a + b + 1"] e3 c24
        by (simp add: y_def algebra_simps)
      show ?thesis
      proof (cases "b = 3")
        case True
        have "y mod 400 = 0"
          using div_mod_block(2) [of 0 400 "a + 1"] e3 c24 True
          by (simp add: y_def algebra_simps)
        with True e3 c24 m4 m100 show ?thesis by (simp add: is_leap_def)
      next
        case False
        then have "0 \<le> 100 * b + 100" "100 * b + 100 < 400" using assms(1,2) by simp_all
        then have "y mod 400 = 100 * b + 100"
          using div_mod_block(2) [of "100 * b + 100" 400 a] e3 c24
          by (simp add: y_def algebra_simps)
        with False e3 c24 m4 m100 assms(1) show ?thesis by (simp add: is_leap_def)
      qed
    qed
  qed
qed


lemma ord2ymd_roundtrip:
  assumes "1 \<le> n"
  shows "(case ord2ymd n of (y, m, d) \<Rightarrow> ymd2ord y m d) = n"
proof -
  define a where "a = (n - 1) div 146097"
  define r400 where "r400 = (n - 1) mod 146097"
  define b where "b = r400 div 36524"
  define r100 where "r100 = r400 mod 36524"
  define c where "c = r100 div 1461"
  define r4 where "r4 = r100 mod 1461"
  define e where "e = r4 div 365"
  define f where "f = r4 mod 365"
  define y where "y = a * 400 + 1 + b * 100 + c * 4 + e"
  have n_eq: "n - 1 = 146097 * a + r400" by (simp add: a_def r400_def)
  have r400_eq: "r400 = 36524 * b + r100" by (simp add: b_def r100_def)
  have r100_eq: "r100 = 1461 * c + r4" by (simp add: c_def r4_def)
  have r4_eq: "r4 = 365 * e + f" by (simp add: e_def f_def)
  have r400_b: "0 \<le> r400" "r400 \<le> 146096" by (simp_all add: r400_def)
  have r100_b: "0 \<le> r100" "r100 \<le> 36523" by (simp_all add: r100_def)
  have r4_b: "0 \<le> r4" "r4 \<le> 1460" by (simp_all add: r4_def)
  have f_b: "0 \<le> f" "f \<le> 364" by (simp_all add: f_def)
  have b_b: "0 \<le> b" "b \<le> 4" using r400_b unfolding b_def by linarith+
  have c_b: "0 \<le> c" "c \<le> 24" using r100_b unfolding c_def by linarith+
  have e_b: "0 \<le> e" "e \<le> 4" using r4_b unfolding e_def by linarith+
  have unfold: "ord2ymd n =
     (if e = 4 \<or> b = 4 then (y - 1, 12, 31)
      else if f < DAYS_BEFORE_MONTH ! nat ((f + 50) div 32)
                   + (if (f + 50) div 32 > 2 \<and> (e = 3 \<and> (c \<noteq> 24 \<or> b = 3)) then 1 else 0)
      then (y, (f + 50) div 32 - 1,
            f - (DAYS_BEFORE_MONTH ! nat ((f + 50) div 32)
                 + (if (f + 50) div 32 > 2 \<and> (e = 3 \<and> (c \<noteq> 24 \<or> b = 3)) then 1 else 0)
                 - (DAYS_IN_MONTH ! nat ((f + 50) div 32 - 1)
                    + (if (f + 50) div 32 - 1 = 2 \<and> (e = 3 \<and> (c \<noteq> 24 \<or> b = 3)) then 1 else 0)))
              + 1)
      else (y, (f + 50) div 32,
            f - (DAYS_BEFORE_MONTH ! nat ((f + 50) div 32)
                 + (if (f + 50) div 32 > 2 \<and> (e = 3 \<and> (c \<noteq> 24 \<or> b = 3)) then 1 else 0)) + 1))"
    unfolding ord2ymd_def Let_def DI400Y_def DI100Y_def DI4Y_def
      y_def f_def e_def r4_def c_def r100_def b_def r400_def a_def
    by simp
  show ?thesis
  proof (cases "e = 4 \<or> b = 4")
    case True
    then consider "b = 4" | "b \<le> 3" "e = 4" using b_b by linarith
    then show ?thesis
    proof cases
      case 1
      then have z: "r100 = 0" using r400_eq r400_b r100_b by linarith
      then have "c = 0" "e = 0" "f = 0" by (simp_all add: c_def e_def r4_def f_def)
      with 1 z have n': "n = 146097 * a + 146097"
        and y': "y - 1 = a * 400 + 1 + 3 * 100 + 24 * 4 + 3"
        using n_eq r400_eq by (simp_all add: y_def)
      have "ymd2ord (y - 1) 12 31 = n"
        unfolding ymd2ord_def days_before_month_def y'
        using year_arith [of 3 24 3 a]
        by (simp add: DAYS_BEFORE_MONTH_def n')
      with True show ?thesis by (simp add: unfold)
    next
      case 2
      then have f0: "f = 0" using r4_eq r4_b f_b by linarith
      have c23: "c \<le> 23" using r100_eq r100_b r4_eq 2(2) f0 by linarith
      have y': "y - 1 = a * 400 + 1 + b * 100 + c * 4 + 3" using 2 by (simp add: y_def)
      have n': "n = 146097 * a + 36524 * b + 1461 * c + 1461"
        using n_eq r400_eq r100_eq r4_eq f0 2(2) by linarith
      have "ymd2ord (y - 1) 12 31 = n"
        unfolding ymd2ord_def days_before_month_def y'
        using year_arith [of b c 3 a] b_b(1) 2(1) c_b(1) c23
        by (simp add: DAYS_BEFORE_MONTH_def n')
      with True show ?thesis by (simp add: unfold)
    qed
  next
    case False
    then have b3: "b \<le> 3" and e3: "e \<le> 3" using b_b e_b by linarith+
    define L where "L = (e = 3 \<and> (c \<noteq> 24 \<or> b = 3))"
    have ya: "days_before_year y = 146097 * a + 36524 * b + 1461 * c + 365 * e"
      and yl: "is_leap y = L"
      using year_arith [of b c e a] b_b(1) b3 c_b e_b(1) e3 by (simp_all add: y_def L_def)
    have decomp: "n = 146097 * a + 36524 * b + 1461 * c + 365 * e + f + 1"
      using n_eq r400_eq r100_eq r4_eq by linarith
    define m where "m = (f + 50) div 32"
    define p where "p = DAYS_BEFORE_MONTH ! nat m + (if m > 2 \<and> L then 1 else 0)"
    define q where "q = p - (DAYS_IN_MONTH ! nat (m - 1) + (if m - 1 = 2 \<and> L then 1 else 0))"
    define res where "res = (if p > f then (m - 1, f - q + 1) else (m, f - p + 1))"
    have ord: "ord2ymd n = (y, fst res, snd res)"
      using False by (simp add: unfold res_def q_def p_def m_def L_def)
    have md: "DAYS_BEFORE_MONTH ! nat (fst res) + (if fst res > 2 \<and> L then 1 else 0) + snd res
                = f + 1"
      using month_of_day [OF f_b, of L] unfolding res_def q_def p_def m_def by simp
    have "ymd2ord y (fst res) (snd res) = n"
      unfolding ymd2ord_def days_before_month_def ya yl using md decomp by linarith
    then show ?thesis by (simp add: ord split_beta)
  qed
qed

text \<open>
  Subtracting whole days moves the instant by that many days of 86400 seconds, whenever
  the result is a date the library can represent.
\<close>

lemma dt_sub_instant:
  assumes "dt_sub t delta = Inr t'"
  shows "instant t' = instant t - delta * 86400000000"
    and "tzinfo t' = tzinfo t"
proof -
  from assms have pos: "1 \<le> toordinal t - delta"
    by (simp add: dt_sub_def Let_def split: if_splits)
  obtain y m d where o: "ord2ymd (toordinal t - delta) = (y, m, d)"
    by (cases "ord2ymd (toordinal t - delta)") auto
  with assms pos have t': "t' = t\<lparr>year := y, month := m, day := d\<rparr>"
    by (simp add: dt_sub_def Let_def split: if_splits)
  from ord2ymd_roundtrip [OF pos] o have "ymd2ord y m d = toordinal t - delta"
    by simp
  then have "toordinal t' = toordinal t - delta"
    by (simp add: t' toordinal_def)
  then show "instant t' = instant t - delta * 86400000000"
    by (simp add: instant_def utcoffset_def t' algebra_simps)
  show "tzinfo t' = tzinfo t"
    by (simp add: t')
qed

lemma dt_sub_defined:
  assumes "0 < toordinal t - delta" "toordinal t - delta \<le> MAXORDINAL"
  shows "\<exists>t'. dt_sub t delta = Inr t'"
  using assms by (simp add: dt_sub_def Let_def split: prod.splits)

section \<open>Properties of the sort\<close>

















section \<open>Properties of the reader\<close>

text \<open>
  Against a date-time that carries \<open>timezone.utc\<close>, every aware date-time is compared
  as an instant; and where no \<open>tzinfo\<close> object comes with two offsets, \<open><\<close> on the
  starts agrees with the order of the instants.
\<close>

lemma instant_wall_clock: "instant t = wall_clock t - utcoffset t * 1000000"
  by (simp add: instant_def wall_clock_def algebra_simps)

lemma dt_le_utc:
  assumes "tzinfo a = utc" and "tzinfo b \<noteq> None"
  shows "dt_le a b = Inr (instant a \<le> instant b)"
    and "dt_le b a = Inr (instant b \<le> instant a)"
  using assms
  by (auto simp add: dt_le_def same_tzinfo_def instant_wall_clock utcoffset_def utc_def
      split: option.splits tz.splits)



lemma is_event_in_range_readings:
  assumes "is_event_in_range r clk k s = Inr (b, k')"
  shows "k' = (if reads_clock r then Suc k else k)"
  using assms
  by (auto simp add: is_event_in_range_def reads_clock_def now_utc_def
      split: if_splits sum.splits)

text \<open>
  The loop reads the clock once for every \<open>VEVENT\<close> when the reader is one that reads
  the clock, and never otherwise.
\<close>

lemma read_loop_readings:
  assumes "read_loop r clk comps k events = Inr (events', k')"
  shows "k' = k + (if reads_clock r
                   then length (filter (\<lambda>c. name c = ''VEVENT'') comps) else 0)"
  using assms
proof (induction comps arbitrary: k events)
  case Nil
  then show ?case by simp
next
  case (Cons c cs)
  show ?case
  proof (cases "name c = ''VEVENT''")
    case False
    with Cons.prems have "read_loop r clk cs k events = Inr (events', k')" by simp
    from Cons.IH [OF this] False show ?thesis by simp
  next
    case True
    with Cons.prems obtain raw where raw: "dtstart c = Some raw"
      by (cases "dtstart c") simp_all
    with True Cons.prems obtain b k1 where
      chk: "is_event_in_range r clk k (normalize_start raw) = Inr (b, k1)"
      by (cases "is_event_in_range r clk k (normalize_start raw)") auto
    with True raw Cons.prems obtain evs1 where "read_loop r clk cs k1 evs1 = Inr (events', k')"
      by (auto split: if_splits)
    from Cons.IH [OF this] is_event_in_range_readings [OF chk] True
    show ?thesis by (simp split: if_splits)
  qed
qed


text \<open>
  The bounds of a reader that the constructor has built carry \<open>timezone.utc\<close>, and a
  range check whose window would start before year 1 or after year 9999 raises.
\<close>

lemma CalendarReader_init_utc:
  assumes "CalendarReader_init path days sd ed = Inr r"
  shows "(\<forall>t. start_date r = Some t \<longrightarrow> tzinfo t = utc)
         \<and> (\<forall>t. end_date r = Some t \<longrightarrow> tzinfo t = utc)
         \<and> days_before r = days \<and> file_path r = path"
  using assms
  by (auto simp add: CalendarReader_init_def parse_bound_def replace_tzinfo_def
      split: sum.splits option.splits if_splits)

lemma is_event_in_range_overflow:
  assumes "start_date r = None \<or> end_date r = None"
    and "days_before r = Some n" and "n \<noteq> 0"
    and "\<not> (\<bar>n\<bar> \<le> 999999999 \<and> 0 < toordinal (clk k) - n
              \<and> toordinal (clk k) - n \<le> MAXORDINAL)"
  shows "is_event_in_range r clk k event_start = Inl OverflowError"
proof -
  have "toordinal (replace_tzinfo (clk k) utc) = toordinal (clk k)"
    by (simp add: replace_tzinfo_def toordinal_def)
  with assms show ?thesis
    by (auto simp add: is_event_in_range_def truthy_days_def now_utc_def timedelta_days_def
        dt_sub_def Let_def)
qed

text \<open>
  What \<open>_get_attendee_status\<close> computes, for every shape of the attendee property.
\<close>

lemma get_attendee_status_iff:
  "get_attendee_status c = ''ACCEPTED'' \<longleftrightarrow>
     (case attendee c of
        NoAttendee \<Rightarrow> False
      | OneAttendee a \<Rightarrow> uri a \<noteq> [] \<and> accepted a
      | Attendees as \<Rightarrow> (\<exists>a \<in> set as. accepted a))"
proof -
  have loop: "attendee_loop as = ''ACCEPTED'' \<longleftrightarrow> (\<exists>a \<in> set as. accepted a)" for as
    by (induction as) simp_all
  show ?thesis
    by (simp add: get_attendee_status_def loop split: attendee_prop.splits)
qed

lemma get_attendee_status_values:
  "get_attendee_status c = ''ACCEPTED'' \<or> get_attendee_status c = ''DECLINED''"
proof -
  have loop: "attendee_loop as = ''ACCEPTED'' \<or> attendee_loop as = ''DECLINED''" for as
    by (induction as) simp_all
  show ?thesis
    using loop by (simp add: get_attendee_status_def split: attendee_prop.splits)
qed


section \<open>Properties of the formatting\<close>











lemma decimal_short:
  assumes "n < 1000"
  shows "length (decimal n) < 4"
proof -
  have d100: "n div 10 div 10 = n div 100"
    using zdiv_zmult2_eq [where a = n and b = 10 and c = 10] by simp
  have "n div 100 < 10" using assms by linarith
  then show ?thesis
    by (simp add: decimal.simps [of n] decimal.simps [of "n div 10"]
        decimal.simps [of "n div 100"] d100)
qed

section \<open>The claims\<close>

subsection \<open>C1: the date-range check, mode by mode\<close>

text \<open>
  C1 says that the check passes, in explicit-interval mode, exactly when
  \<open>start_date \<le> start \<le> end_date\<close>; in trailing-window mode, exactly when
  \<open>now - N days \<le> start \<le> now\<close>; and always in unbounded mode.

  As stated this fails for a trailing window of \<open>N = 0\<close> days: the check then passes
  for every start, also for one that is not \<open>now\<close>.
\<close>

theorem is_event_in_range_zero_days_counterexample:
  "is_event_in_range (ex_reader (Some 0) None None) ex_clock 0 (at_midnight_utc 1999 12 31)
     = Inr (True, 0)
   \<and> \<not> (instant (replace_tzinfo (ex_clock 0) utc) - 0 * 86400000000
           \<le> instant (at_midnight_utc 1999 12 31)
        \<and> instant (at_midnight_utc 1999 12 31) \<le> instant (replace_tzinfo (ex_clock 0) utc))"
  by (simp add: is_event_in_range_def ex_reader_def truthy_days_def
      instant_def at_midnight_utc_def toordinal_def ymd2ord_def days_before_year_def
      days_before_month_def DAYS_BEFORE_MONTH_def is_leap_def utcoffset_def
      replace_tzinfo_def ex_clock_def utc_def)

text \<open>
  C1, amended. For every aware (normalised) start of an event, in whatever zone, and
  with instants compared:
  \<^item> with both bounds of the interval set (in UTC, as the constructor sets them: lemma
    \<open>CalendarReader_init_utc\<close>), the check passes exactly when
    \<open>start_date \<le> start \<le> end_date\<close>, both ends included;
  \<^item> otherwise, with a day count \<open>N\<close> other than 0 for which \<open>now - N days\<close> is a date
    of the years 1 to 9999, it passes exactly when \<open>now - N days \<le> start \<le> now\<close>, where
    \<open>now\<close> is the reading of the clock taken by this check;
  \<^item> otherwise, with the day count 0, it always passes;
  \<^item> otherwise, with no day count, it always passes.
\<close>

theorem is_event_in_range_by_mode:
  "tzinfo event_start \<noteq> None \<longrightarrow>
     (start_date r = Some sd \<and> end_date r = Some ed \<and> tzinfo sd = utc \<and> tzinfo ed = utc
        \<longrightarrow> is_event_in_range r clk k event_start
              = Inr (instant sd \<le> instant event_start \<and> instant event_start \<le> instant ed, k))
   \<and> ((start_date r = None \<or> end_date r = None) \<and> days_before r = Some n \<and> n \<noteq> 0
        \<and> \<bar>n\<bar> \<le> 999999999
        \<and> 0 < toordinal (clk k) - n \<and> toordinal (clk k) - n \<le> MAXORDINAL
        \<longrightarrow> is_event_in_range r clk k event_start
              = Inr (instant (replace_tzinfo (clk k) utc) - n * 86400000000 \<le> instant event_start
                     \<and> instant event_start \<le> instant (replace_tzinfo (clk k) utc), Suc k))
   \<and> ((start_date r = None \<or> end_date r = None) \<and> days_before r = Some 0
        \<longrightarrow> is_event_in_range r clk k event_start = Inr (True, k))
   \<and> ((start_date r = None \<or> end_date r = None) \<and> days_before r = None
        \<longrightarrow> is_event_in_range r clk k event_start = Inr (True, k))"
proof (intro impI conjI)
  assume aware: "tzinfo event_start \<noteq> None"
  {
    assume b: "start_date r = Some sd \<and> end_date r = Some ed
              \<and> tzinfo sd = utc \<and> tzinfo ed = utc"
    then have "dt_le sd event_start = Inr (instant sd \<le> instant event_start)"
      and "dt_le event_start ed = Inr (instant event_start \<le> instant ed)"
      using aware dt_le_utc [of sd event_start] dt_le_utc [of ed event_start] by simp_all
    with b show "is_event_in_range r clk k event_start
              = Inr (instant sd \<le> instant event_start \<and> instant event_start \<le> instant ed, k)"
      by (auto simp add: is_event_in_range_def chain_le_def)
  next
    assume h: "(start_date r = None \<or> end_date r = None) \<and> days_before r = Some n \<and> n \<noteq> 0
        \<and> \<bar>n\<bar> \<le> 999999999
        \<and> 0 < toordinal (clk k) - n \<and> toordinal (clk k) - n \<le> MAXORDINAL"
    define now where "now = replace_tzinfo (clk k) utc"
    have ord: "toordinal now = toordinal (clk k)"
      by (simp add: now_def replace_tzinfo_def toordinal_def)
    with h obtain days_ago where sub: "dt_sub now n = Inr days_ago"
      using dt_sub_defined [of now n] by auto
    have tz: "tzinfo now = utc" "tzinfo days_ago = utc"
      using dt_sub_instant(2) [OF sub] by (simp_all add: now_def replace_tzinfo_def)
    have le: "dt_le days_ago event_start = Inr (instant days_ago \<le> instant event_start)"
      "dt_le event_start now = Inr (instant event_start \<le> instant now)"
      using aware tz dt_le_utc [of days_ago event_start] dt_le_utc [of now event_start]
      by simp_all
    have "is_event_in_range r clk k event_start
            = Inr (instant days_ago \<le> instant event_start \<and> instant event_start \<le> instant now,
                   Suc k)"
      using h sub le
      by (auto simp add: is_event_in_range_def truthy_days_def now_utc_def timedelta_days_def
            chain_le_def now_def [symmetric])
    then show "is_event_in_range r clk k event_start
              = Inr (instant (replace_tzinfo (clk k) utc) - n * 86400000000 \<le> instant event_start
                     \<and> instant event_start \<le> instant (replace_tzinfo (clk k) utc), Suc k)"
      by (simp add: dt_sub_instant(1) [OF sub] now_def)
  next
    assume "(start_date r = None \<or> end_date r = None) \<and> days_before r = Some 0"
    then show "is_event_in_range r clk k event_start = Inr (True, k)"
      by (auto simp add: is_event_in_range_def truthy_days_def)
  next
    assume "(start_date r = None \<or> end_date r = None) \<and> days_before r = None"
    then show "is_event_in_range r clk k event_start = Inr (True, k)"
      by (auto simp add: is_event_in_range_def truthy_days_def)
  }
qed

text \<open>
  The theorem on a January interval (an event of 1 February is outside, one of
  31 January at 00:00 is inside, and one of 1 January at 00:30 in Warsaw is outside: it
  is 31 December, 23:30, in UTC), on a window of 7 days before 2024-03-01 12:00:00 (an
  event of 31 January is outside, one of 27 February is inside), on a day count of 0 and
  on no range at all.
\<close>

theorem is_event_in_range_by_mode_witness:
  "is_event_in_range
      (ex_reader None (Some (at_midnight_utc 2024 1 1)) (Some (at_midnight_utc 2024 1 31)))
      ex_clock 0 (at_midnight_utc 2024 2 1) = Inr (False, 0)
   \<and> is_event_in_range
      (ex_reader None (Some (at_midnight_utc 2024 1 1)) (Some (at_midnight_utc 2024 1 31)))
      ex_clock 0 (at_midnight_utc 2024 1 31) = Inr (True, 0)
   \<and> is_event_in_range
      (ex_reader None (Some (at_midnight_utc 2024 1 1)) (Some (at_midnight_utc 2024 1 31)))
      ex_clock 0 (at_time 2024 1 1 0 30 (warsaw 3600)) = Inr (False, 0)
   \<and> is_event_in_range (ex_reader (Some 7) None None) ex_clock 0 (at_midnight_utc 2024 1 31)
       = Inr (False, 1)
   \<and> is_event_in_range (ex_reader (Some 7) None None) ex_clock 0 (at_midnight_utc 2024 2 27)
       = Inr (True, 1)
   \<and> is_event_in_range (ex_reader (Some 0) None None) ex_clock 0 (at_midnight_utc 2024 1 31)
       = Inr (True, 0)
   \<and> is_event_in_range (ex_reader None None None) ex_clock 0 (at_midnight_utc 2024 1 31)
       = Inr (True, 0)"
  using
    is_event_in_range_by_mode
      [of "at_midnight_utc 2024 2 1"
          "ex_reader None (Some (at_midnight_utc 2024 1 1)) (Some (at_midnight_utc 2024 1 31))"
          "at_midnight_utc 2024 1 1" "at_midnight_utc 2024 1 31" ex_clock 0 7]
    is_event_in_range_by_mode
      [of "at_midnight_utc 2024 1 31"
          "ex_reader None (Some (at_midnight_utc 2024 1 1)) (Some (at_midnight_utc 2024 1 31))"
          "at_midnight_utc 2024 1 1" "at_midnight_utc 2024 1 31" ex_clock 0 7]
    is_event_in_range_by_mode
      [of "at_time 2024 1 1 0 30 (warsaw 3600)"
          "ex_reader None (Some (at_midnight_utc 2024 1 1)) (Some (at_midnight_utc 2024 1 31))"
          "at_midnight_utc 2024 1 1" "at_midnight_utc 2024 1 31" ex_clock 0 7]
    is_event_in_range_by_mode
      [of "at_midnight_utc 2024 1 31" "ex_reader (Some 7) None None"
          "at_midnight_utc 2024 1 1" "at_midnight_utc 2024 1 31" ex_clock 0 7]
    is_event_in_range_by_mode
      [of "at_midnight_utc 2024 2 27" "ex_reader (Some 7) None None"
          "at_midnight_utc 2024 1 1" "at_midnight_utc 2024 1 31" ex_clock 0 7]
    is_event_in_range_by_mode
      [of "at_midnight_utc 2024 1 31" "ex_reader (Some 0) None None"
          "at_midnight_utc 2024 1 1" "at_midnight_utc 2024 1 31" ex_clock 0 0]
    is_event_in_range_by_mode
      [of "at_midnight_utc 2024 1 31" "ex_reader None None None"
          "at_midnight_utc 2024 1 1" "at_midnight_utc 2024 1 31" ex_clock 0 0]
  by (simp add: at_midnight_utc_def at_time_def warsaw_def ex_reader_def ex_clock_def
      toordinal_def ymd2ord_def days_before_year_def days_before_month_def
      DAYS_BEFORE_MONTH_def is_leap_def MAXORDINAL_def replace_tzinfo_def utc_def instant_def
      utcoffset_def)


subsection \<open>C2: the attendance of an event\<close>

text \<open>
  C2 says that the attendance is \<open>ACCEPTED\<close> exactly when at least one attendee has the
  participation status \<open>ACCEPTED\<close>, and \<open>DECLINED\<close> in every other case.

  The code tests the attendee property for truth before it looks at any attendee, and a
  single attendee is a string: one whose address is empty is false, and the event is
  \<open>DECLINED\<close> although its attendee has the status \<open>ACCEPTED\<close>. The same attendee in a
  list of two is found. (For every other event the claim holds: lemma
  \<open>get_attendee_status_iff\<close>.)
\<close>

theorem get_attendee_status_empty_address:
  "accepted (ex_attendee [] ''ACCEPTED'')
   \<and> get_attendee_status
         (ex_vevent (DateValue (ex_date 2024 1 10)) ''Sync''
            (OneAttendee (ex_attendee [] ''ACCEPTED''))) = ''DECLINED''
   \<and> get_attendee_status
         (ex_vevent (DateValue (ex_date 2024 1 10)) ''Sync''
            (Attendees [ex_attendee [] ''ACCEPTED'',
                        ex_attendee ''mailto:b@example.org'' ''DECLINED''])) = ''ACCEPTED''"
  by (simp add: get_attendee_status_def accepted_def ex_attendee_def ex_vevent_def)

subsection \<open>C3: the normalisation of the start\<close>

text \<open>
  C3: a start that is a date becomes that date at 00:00:00 with UTC attached; a
  date-time without a timezone gets UTC attached and keeps its clock fields; a
  date-time with a timezone stays as it is.
\<close>

theorem normalize_start_cases:
  "normalize_start (DateValue d)
     = \<lparr>year = year d, month = month d, day = day d,
        hour = 0, minute = 0, second = 0, microsecond = 0, tzinfo = Some UTC\<rparr>
   \<and> (tzinfo t = None \<longrightarrow> normalize_start (DateTimeValue t) = t\<lparr>tzinfo := Some UTC\<rparr>)
   \<and> (tzinfo t \<noteq> None \<longrightarrow> normalize_start (DateTimeValue t) = t)"
  by (simp add: normalize_start_def combine_min_def replace_tzinfo_def utc_def)

text \<open>
  On 10 January 2024 as a date, on 12:00:00 of 1 March 2024 without a timezone, and on
  10:30:00 of 10 July 2024 in Warsaw, two hours east of UTC.
\<close>

theorem normalize_start_cases_witness:
  "normalize_start (DateValue (ex_date 2024 1 10)) = at_midnight_utc 2024 1 10
   \<and> normalize_start (DateTimeValue (ex_clock 0)) = (ex_clock 0)\<lparr>tzinfo := Some UTC\<rparr>
   \<and> normalize_start (DateTimeValue (at_time 2024 7 10 10 30 (warsaw 7200)))
       = at_time 2024 7 10 10 30 (warsaw 7200)"
  using normalize_start_cases [of "ex_date 2024 1 10" "ex_clock 0"]
    normalize_start_cases [of "ex_date 2024 1 10" "at_time 2024 7 10 10 30 (warsaw 7200)"]
  by (simp add: ex_date_def at_midnight_utc_def at_time_def warsaw_def ex_clock_def)

subsection \<open>C4: when the clock is read\<close>

text \<open>
  C4 says that in trailing-window mode the current instant is read once in a run and
  that the one value serves for every event.

  The code reads the clock inside the range check, once for each event. With a clock
  that moves between two readings, two events with the same start, 12:00:01, get
  different verdicts: the first is compared with the reading 12:00:00 and dropped, the
  second with the reading 12:00:01 and kept, and the run has read the clock twice.
\<close>

theorem now_resampled_counterexample:
  "is_event_in_range (ex_reader (Some 7) None None) ex_clock 0 ex_noon_tick = Inr (False, 1)
   \<and> is_event_in_range (ex_reader (Some 7) None None) ex_clock 1 ex_noon_tick = Inr (True, 2)
   \<and> read_events (ex_reader (Some 7) None None)
        (ex_fs [ex_vevent (DateTimeValue ex_noon_tick) ''Sync'' ex_accepted,
                ex_vevent (DateTimeValue ex_noon_tick) ''Sync'' ex_accepted])
        ex_clock 0
       = Inr ([ex_event ''Sync'' ex_noon_tick], 2)"
  by (simp add: read_events_def sorted_by_start_def listsort_def normalize_start_def
      get_attendee_status_def accepted_def is_event_in_range_def truthy_days_def calendar_defs
      datetime_defs example_defs)

text \<open>
  C4, amended. In trailing-window mode (no complete interval, a day count other than 0)
  the current instant is read once for each event, inside that event's range check: a
  run over the components of a file reads the clock as many times as the file has
  events, and the check that starts after \<open>k\<close> readings depends on the clock through
  reading number \<open>k\<close> alone. The boundaries of the window can therefore differ between
  the events of a run. No check reads the clock more than once.
\<close>

theorem clock_read_once_per_event:
  "((start_date r = None \<or> end_date r = None) \<and> days_before r = Some n \<and> n \<noteq> 0
      \<and> read_loop r clk comps k events = Inr (events', k')
      \<longrightarrow> k' = k + length (filter (\<lambda>c. name c = ''VEVENT'') comps))
   \<and> (clk k = clk' k \<longrightarrow> is_event_in_range r clk k s = is_event_in_range r clk' k s)
   \<and> (is_event_in_range r clk k s = Inr (b, k1) \<longrightarrow> k1 = k \<or> k1 = Suc k)"
proof (intro conjI impI)
  assume h: "(start_date r = None \<or> end_date r = None) \<and> days_before r = Some n \<and> n \<noteq> 0
      \<and> read_loop r clk comps k events = Inr (events', k')"
  then have "reads_clock r" by (auto simp add: reads_clock_def truthy_days_def)
  with h read_loop_readings [of r clk comps k events events' k']
  show "k' = k + length (filter (\<lambda>c. name c = ''VEVENT'') comps)" by simp
next
  assume "clk k = clk' k"
  then show "is_event_in_range r clk k s = is_event_in_range r clk' k s"
    by (simp add: is_event_in_range_def now_utc_def)
next
  assume "is_event_in_range r clk k s = Inr (b, k1)"
  from is_event_in_range_readings [OF this] show "k1 = k \<or> k1 = Suc k"
    by (simp split: if_splits)
qed

text \<open>
  On a file of two events and a window of 7 days: two readings; and the first check is
  the same under a clock that agrees with \<open>ex_clock\<close> on the first reading only.
\<close>

theorem clock_read_once_per_event_witness:
  "read_loop (ex_reader (Some 7) None None) ex_clock
       [ex_vevent (DateTimeValue ex_noon_tick) ''Sync'' ex_accepted,
        ex_vevent (DateTimeValue ex_noon_tick) ''Sync'' ex_accepted] 0 []
     = Inr ([ex_event ''Sync'' ex_noon_tick], 2)
   \<and> 2 = 0 + length (filter (\<lambda>c. name c = ''VEVENT'')
                     [ex_vevent (DateTimeValue ex_noon_tick) ''Sync'' ex_accepted,
                      ex_vevent (DateTimeValue ex_noon_tick) ''Sync'' ex_accepted])
   \<and> is_event_in_range (ex_reader (Some 7) None None) ex_clock 0 ex_noon_tick
       = is_event_in_range (ex_reader (Some 7) None None) (\<lambda>j. ex_clock 0) 0 ex_noon_tick
   \<and> is_event_in_range (ex_reader (Some 7) None None) ex_clock 0 ex_noon_tick = Inr (False, 1)"
proof -
  let ?r = "ex_reader (Some 7) None None"
  let ?c = "ex_vevent (DateTimeValue ex_noon_tick) ''Sync'' ex_accepted"
  have chk: "is_event_in_range ?r ex_clock 0 ex_noon_tick = Inr (False, 1)"
    by (simp add: is_event_in_range_def truthy_days_def calendar_defs datetime_defs example_defs)
  have run: "read_loop ?r ex_clock [?c, ?c] 0 [] = Inr ([ex_event ''Sync'' ex_noon_tick], 2)"
    by (simp add: normalize_start_def get_attendee_status_def accepted_def
        is_event_in_range_def truthy_days_def calendar_defs datetime_defs example_defs)
  have mode: "(start_date ?r = None \<or> end_date ?r = None) \<and> days_before ?r = Some 7 \<and> (7::int) \<noteq> 0"
    by (simp add: ex_reader_def)
  from clock_read_once_per_event
         [of ?r 7 ex_clock "[?c, ?c]" 0 "[]" "[ex_event ''Sync'' ex_noon_tick]" 2
             "\<lambda>j. ex_clock 0" ex_noon_tick False 1]
       mode run chk
  show ?thesis by simp
qed

subsection \<open>C5: the order of the result\<close>




subsection \<open>C6: the printed text\<close>




subsection \<open>C7: no range at all\<close>

text \<open>
  C7: when the reader has neither of the two dates of an interval nor a day count, the
  range check passes for every start (and reads no clock).
\<close>

theorem is_event_in_range_unbounded:
  "start_date r = None \<and> end_date r = None \<and> days_before r = None
     \<longrightarrow> is_event_in_range r clk k event_start = Inr (True, k)"
  by (simp add: is_event_in_range_def truthy_days_def)

text \<open>
  On the reader that \<open>CalendarReader(path)\<close> builds, and a date-time of 1999 without a
  timezone.
\<close>

theorem is_event_in_range_unbounded_witness:
  "CalendarReader_init ''cal.ics'' None None None = Inr (ex_reader None None None)
   \<and> is_event_in_range (ex_reader None None None) ex_clock 0
        ((at_midnight_utc 1999 12 31)\<lparr>tzinfo := None\<rparr>) = Inr (True, 0)"
  using is_event_in_range_unbounded
    [of "ex_reader None None None" ex_clock 0 "(at_midnight_utc 1999 12 31)\<lparr>tzinfo := None\<rparr>"]
  by (simp add: ex_reader_def CalendarReader_init_def parse_bound_def)

subsection \<open>C8: no event retained\<close>

text \<open>
  C8: when no event is retained, nothing is raised: \<open>print_events\<close> makes its one
  \<open>print\<close> call with the empty string, and \<open>main\<close> returns.
\<close>

theorem print_events_empty:
  "print_events [] out = out @ [[]]
   \<and> (CalendarReader_init path days sd ed = Inr r \<and> read_events r fs clk 0 = Inr ([], k)
        \<longrightarrow> main path days sd ed fs clk out = Inr (out @ [[]]))"
  by (simp add: print_events_def py_print_def main_def)

text \<open>On a file whose one event has an attendee who declined.\<close>

theorem print_events_empty_witness:
  "read_events (ex_reader None None None)
       (ex_fs [ex_vevent (DateValue (ex_date 2024 1 10)) ''Sync'' ex_declined]) ex_clock 0
     = Inr ([], 0)
   \<and> main ''cal.ics'' None None None
        (ex_fs [ex_vevent (DateValue (ex_date 2024 1 10)) ''Sync'' ex_declined]) ex_clock []
       = Inr [[]]"
proof -
  let ?fs = "ex_fs [ex_vevent (DateValue (ex_date 2024 1 10)) ''Sync'' ex_declined]"
  have init: "CalendarReader_init ''cal.ics'' None None None = Inr (ex_reader None None None)"
    by (simp add: ex_reader_def CalendarReader_init_def parse_bound_def)
  have run: "read_events (ex_reader None None None) ?fs ex_clock 0 = Inr ([], 0)"
    by (simp add: read_events_def sorted_by_start_def listsort_def normalize_start_def
        get_attendee_status_def accepted_def is_event_in_range_def truthy_days_def
        example_defs)
  from print_events_empty
         [of "[]" "''cal.ics''" None None None "ex_reader None None None" ?fs ex_clock 0]
       init run
  show ?thesis by simp
qed

subsection \<open>C9: the errors of the command line\<close>

text \<open>
  C9: with an argument vector of a length other than 3 and 4 (the script's name and two
  or three arguments), the script prints the two lines of the usage and exits with
  status 1; with two arguments of which the second is not an integer for \<open>int\<close>, it
  prints the message about the number of days and exits with status 1. (With an
  integer, the script prints what \<open>main\<close> prints and runs to its end, when \<open>main\<close>
  returns.)
\<close>

theorem script_usage_errors:
  "(length argv \<noteq> 3 \<and> length argv \<noteq> 4
      \<longrightarrow> script argv fs clk = ([usage1, usage2], Exit 1))
   \<and> (length argv = 3 \<and> py_int (argv ! 2) = Inl ValueError
      \<longrightarrow> script argv fs clk = ([not_an_integer], Exit 1))
   \<and> (length argv = 3 \<and> py_int (argv ! 2) = Inr n
        \<and> main (argv ! 1) (Some n) None None fs clk [] = Inr out
      \<longrightarrow> script argv fs clk = (out, Finished))
   \<and> usage1 = ''Usage: python script.py <file_path> <days_before>''
   \<and> usage2 = ''   or: python script.py <file_path> <start_date> <end_date>''
   \<and> not_an_integer = ''The number of days must be an integer.''"
  by (simp add: script_def py_print_def usage1_def usage2_def not_an_integer_def)

text \<open>
  With one argument and with four. With \<open>seven\<close>, with \<open>7.5\<close>, with \<open>7\<close> after the
  separator \<open>0x1C\<close> and with \<open>+ 7\<close> for the number of days, none of which \<open>int\<close> reads.
  And with \<open>60\<close> between a no-break space and a tab, which \<open>int\<close> reads as 60: the event
  of 10 January 2024 is within 60 days before 1 March 2024 and is printed.
\<close>

theorem script_usage_errors_witness:
  "script [''omnimat.py'', ''cal.ics''] (ex_fs []) ex_clock
     = ([''Usage: python script.py <file_path> <days_before>'',
         ''   or: python script.py <file_path> <start_date> <end_date>''], Exit 1)
   \<and> script [''omnimat.py'', ''cal.ics'', ''1'', ''2'', ''3''] (ex_fs []) ex_clock
       = ([''Usage: python script.py <file_path> <days_before>'',
           ''   or: python script.py <file_path> <start_date> <end_date>''], Exit 1)
   \<and> script [''omnimat.py'', ''cal.ics'', ''seven''] (ex_fs []) ex_clock
       = ([''The number of days must be an integer.''], Exit 1)
   \<and> script [''omnimat.py'', ''cal.ics'', ''7.5''] (ex_fs []) ex_clock
       = ([''The number of days must be an integer.''], Exit 1)
   \<and> script [''omnimat.py'', ''cal.ics'', [CHR 0x1C, CHR ''7'']] (ex_fs []) ex_clock
       = ([''The number of days must be an integer.''], Exit 1)
   \<and> script [''omnimat.py'', ''cal.ics'', ''+ 7''] (ex_fs []) ex_clock
       = ([''The number of days must be an integer.''], Exit 1)
   \<and> py_int [CHR 0xA0, CHR ''6'', CHR ''0'', CHR 0x09] = Inr 60
   \<and> script [''omnimat.py'', ''cal.ics'', [CHR 0xA0, CHR ''6'', CHR ''0'', CHR 0x09]]
        (ex_fs [ex_vevent (DateValue (ex_date 2024 1 10)) ''Sync'' ex_accepted]) ex_clock
       = ([''project meeting: Sync_10.01.2024;''], Finished)"
proof -
  let ?fs = "ex_fs [ex_vevent (DateValue (ex_date 2024 1 10)) ''Sync'' ex_accepted]"
  have bad: "py_int ''seven'' = Inl ValueError" "py_int ''7.5'' = Inl ValueError"
    "py_int [CHR 0x1C, CHR ''7''] = Inl ValueError" "py_int ''+ 7'' = Inl ValueError"
    by (simp_all add: py_int_def strip_def is_space_def int_unsigned_def digit_val_def)
  have good: "py_int [CHR 0xA0, CHR ''6'', CHR ''0'', CHR 0x09] = Inr 60"
    by (simp add: py_int_def strip_def is_space_def int_unsigned_def digit_val_def
        MAX_STR_DIGITS_def)
  have run: "main ''cal.ics'' (Some 60) None None ?fs ex_clock []
               = Inr [''project meeting: Sync_10.01.2024;'']"
    by (simp add: main_def CalendarReader_init_def parse_bound_def read_events_def
        sorted_by_start_def listsort_def normalize_start_def get_attendee_status_def
        accepted_def is_event_in_range_def truthy_days_def print_events_def py_print_def
        format_event_def str_opt_def strftime_d_m_Y_def zero_pad2_def digit_chr_def
        decimal.simps calendar_defs datetime_defs example_defs)
  from script_usage_errors [of "[''omnimat.py'', ''cal.ics'']" "ex_fs []" ex_clock]
    script_usage_errors [of "[''omnimat.py'', ''cal.ics'', ''1'', ''2'', ''3'']" "ex_fs []" ex_clock]
    script_usage_errors [of "[''omnimat.py'', ''cal.ics'', ''seven'']" "ex_fs []" ex_clock]
    script_usage_errors [of "[''omnimat.py'', ''cal.ics'', ''7.5'']" "ex_fs []" ex_clock]
    script_usage_errors [of "[''omnimat.py'', ''cal.ics'', [CHR 0x1C, CHR ''7'']]" "ex_fs []"
      ex_clock]
    script_usage_errors [of "[''omnimat.py'', ''cal.ics'', ''+ 7'']" "ex_fs []" ex_clock]
    script_usage_errors
      [of "[''omnimat.py'', ''cal.ics'', [CHR 0xA0, CHR ''6'', CHR ''0'', CHR 0x09]]" ?fs ex_clock
          60 "[''project meeting: Sync_10.01.2024;'']"]
    bad good run
  show ?thesis by simp
qed

subsection \<open>C10: a window of zero days\<close>

text \<open>
  C10: with a day count of 0 (and no complete interval) every event passes the range
  check, as with no range at all; and a check that has read the clock, which is what the
  comparison with the window needs, was made with a day count other than 0.
\<close>

theorem is_event_in_range_zero_days:
  "((start_date r = None \<or> end_date r = None) \<and> days_before r = Some 0
      \<longrightarrow> is_event_in_range r clk k event_start = Inr (True, k))
   \<and> (is_event_in_range r clk k event_start = Inr (b, k') \<and> k' \<noteq> k
      \<longrightarrow> (\<exists>n. days_before r = Some n \<and> n \<noteq> 0))"
  by (auto simp add: is_event_in_range_def truthy_days_def now_utc_def
      split: sum.splits if_splits option.splits)

text \<open>
  On the run \<open>omnimat.py cal.ics 0\<close> over an event of 10 January 2024, with the clock at
  1 March 2024: the event is printed. And a check with 7 days reads the clock.
\<close>

theorem is_event_in_range_zero_days_witness:
  "is_event_in_range (ex_reader (Some 0) None None) ex_clock 0 (at_midnight_utc 2024 1 10)
     = Inr (True, 0)
   \<and> script [''omnimat.py'', ''cal.ics'', ''0'']
        (ex_fs [ex_vevent (DateValue (ex_date 2024 1 10)) ''Sync'' ex_accepted]) ex_clock
       = ([''project meeting: Sync_10.01.2024;''], Finished)
   \<and> is_event_in_range (ex_reader (Some 7) None None) ex_clock 0 (at_midnight_utc 2024 1 10)
       = Inr (False, 1)
   \<and> (\<exists>n. days_before (ex_reader (Some 7) None None) = Some n \<and> n \<noteq> 0)"
proof -
  have chk: "is_event_in_range (ex_reader (Some 7) None None) ex_clock 0
               (at_midnight_utc 2024 1 10) = Inr (False, 1)"
    by (simp add: is_event_in_range_def truthy_days_def calendar_defs datetime_defs example_defs)
  have zero: "is_event_in_range (ex_reader (Some 0) None None) ex_clock 0
                (at_midnight_utc 2024 1 10) = Inr (True, 0)"
    using is_event_in_range_zero_days
      [of "ex_reader (Some 0) None None" ex_clock 0 "at_midnight_utc 2024 1 10"]
    by (simp add: ex_reader_def)
  have run: "script [''omnimat.py'', ''cal.ics'', ''0'']
        (ex_fs [ex_vevent (DateValue (ex_date 2024 1 10)) ''Sync'' ex_accepted]) ex_clock
       = ([''project meeting: Sync_10.01.2024;''], Finished)"
    using zero
    by (simp add: script_def py_int_def strip_def is_space_def int_unsigned_def digit_val_def
        MAX_STR_DIGITS_def main_def CalendarReader_init_def parse_bound_def read_events_def
        sorted_by_start_def listsort_def normalize_start_def get_attendee_status_def
        accepted_def print_events_def py_print_def format_event_def str_opt_def
        strftime_d_m_Y_def zero_pad2_def decimal.simps digit_chr_def combine_min_def utc_def
        example_defs)
  from is_event_in_range_zero_days
         [of "ex_reader (Some 7) None None" ex_clock 0 "at_midnight_utc 2024 1 10" False 1]
       chk zero run
  show ?thesis by simp
qed



end
